theory Spec2Isabelle
  imports Main "HOL-Library.Finite_Map" "HOL-Library.Multiset"
begin

section \<open>Go values shared by the handlers\<close>

text \<open>
  \<^verbatim>\<open>time.Duration\<close> counts nanoseconds. The only arithmetic the handlers do on it is
  \<^verbatim>\<open>45 * time.Minute\<close> and the like, far below the 64-bit range, so it is an \<open>int\<close>.
\<close>

type_synonym Duration = int

definition Second :: Duration where
  "Second = 1000000000"

definition Minute :: Duration where
  "Minute = 60 * Second"

text \<open>\<^verbatim>\<open>strconv.Itoa\<close>, also the verb \<^verbatim>\<open>%d\<close>: the decimal text of an integer.\<close>

fun digits10 :: "nat \<Rightarrow> string" where
  "digits10 n =
     (if n < 10 then [''0123456789'' ! n]
      else digits10 (n div 10) @ [''0123456789'' ! (n mod 10)])"

definition Itoa :: "int \<Rightarrow> string" where
  "Itoa i = (if i < 0 then CHR ''-'' # digits10 (nat (- i)) else digits10 (nat i))"

text \<open>
  Go's \<^verbatim>\<open>error\<close> interface: \<open>None\<close> is the nil error. The constructors name where an
  error value was made: by a remote API call, by \<^verbatim>\<open>fmt.Errorf\<close>, or by the wait utility
  (its timeout, unexpected-state and not-found errors; the last carries the number of
  refreshes that found nothing).
\<close>

datatype error =
    ApiError string
  | Errorf string
  | TimeoutError
  | UnexpectedStateError string
  | NotFoundError nat

fun Error :: "error \<Rightarrow> string" where
  "Error (ApiError s) = s"
| "Error (Errorf s) = s"
| "Error TimeoutError = ''timeout while waiting for state''"
| "Error (UnexpectedStateError s) = ''unexpected state '' @ s"
| "Error (NotFoundError retries) =
     ''couldn'' @ [CHR 0x27] @ ''t find resource ('' @ Itoa (int retries) @ '' retries)''"

text \<open>
  The verb \<^verbatim>\<open>%s\<close> of package fmt applied to an operand of type \<^verbatim>\<open>error\<close>: a nil operand
  prints as \<^verbatim>\<open>%!s(<nil>)\<close>, any other one prints its \<^verbatim>\<open>Error()\<close> text.
\<close>

definition fmt_s :: "error option \<Rightarrow> string" where
  "fmt_s e = (case e of None \<Rightarrow> ''%!s(<nil>)'' | Some x \<Rightarrow> Error x)"

text \<open>
  \<^verbatim>\<open>datatypes.Network_Vlan\<close>: every field is a pointer, \<open>None\<close> is the nil pointer.
  The handlers read and write \<^verbatim>\<open>Id\<close> and \<^verbatim>\<open>Name\<close>.
\<close>

record Network_Vlan =
  Id_ptr :: "int option"
  Name_ptr :: "string option"

text \<open>The zero value \<^verbatim>\<open>datatypes.Network_Vlan{}\<close>.\<close>

definition Network_Vlan_zero :: Network_Vlan where
  "Network_Vlan_zero = \<lparr>Id_ptr = None, Name_ptr = None\<rparr>"

text \<open>
  The \<^verbatim>\<open>interface{}\<close> results of a refresh: the nil interface or a boxed
  \<^verbatim>\<open>Network_Vlan\<close>.
\<close>

datatype iface = IfaceNil | IfaceVlan Network_Vlan

section \<open>The remote listing call\<close>

text \<open>
  \<^verbatim>\<open>services.GetAccountService(sess).Filter(..).Mask(..).GetNetworkVlans()\<close> is a
  remote call. A session is modelled by its answers: given the request (filter path,
  the value the path is compared with, object mask) and the number of listing calls
  already made, it gives the slice and the error of the call.
\<close>

record ListRequest =
  filterPath :: string
  filterEq :: string
  objectMask :: string

type_synonym Session = "ListRequest \<Rightarrow> nat \<Rightarrow> Network_Vlan list \<times> error option"

section \<open>The state-change wait\<close>

text \<open>\<^verbatim>\<open>resource.StateChangeConf\<close>, with the fields the two pollers set.\<close>

record StateChangeConf =
  Pending :: "string list"
  Target :: "string list"
  Refresh :: "nat \<Rightarrow> iface \<times> string \<times> error option"
  Timeout :: Duration
  Delay :: Duration
  MinTimeout :: Duration

text \<open>
  The injectable clock and the count of refresh calls made so far. The refresh closure
  of a configuration is asked for its \<open>k\<close>-th answer, \<open>k\<close> being that count.
\<close>

record World =
  clock :: Duration
  calls :: nat

definition World0 :: World where
  "World0 = \<lparr>clock = 0, calls = 0\<rparr>"

text \<open>
  Modelled from the spec: \<^verbatim>\<open>WaitForState\<close> of the host framework's
  \<^verbatim>\<open>resource.StateChangeConf\<close> is not among the sources. Section 4.1 of the
  specification gives its loop: on each tick call the refresh; an error ends the wait
  with that error; a target state ends it with the result; a pending state sleeps for
  the current backoff interval, bounded below by the minimum interval, and retries
  unless the timeout has elapsed, in which case the wait ends with a timeout error.
  The specification leaves the backoff schedule open, so it is the parameter
  \<open>backoff\<close>: the interval proposed after the \<open>k\<close>-th refresh. A state that is neither
  pending nor a target ends the wait with an error of its own.
  The loop need not return (a minimum interval of zero with no backoff never reaches
  the deadline), hence the option.
  This is the outline only: it has none of the utility's counting of nil results. The
  loop with that counting and with the utility's own pauses is \<open>refresh_rounds\<close>, in
  the section on the wait as the host framework runs it.
\<close>

partial_function (option) refresh_loop ::
  "StateChangeConf \<Rightarrow> (nat \<Rightarrow> Duration) \<Rightarrow> Duration \<Rightarrow> World
     \<Rightarrow> ((iface \<times> error option) \<times> World) option" where
  "refresh_loop conf backoff deadline w =
     (case Refresh conf (calls w) of
        (res, currentState, err) \<Rightarrow>
          if err \<noteq> None then Some ((res, err), w\<lparr>calls := calls w + 1\<rparr>)
          else if currentState \<in> set (Target conf)
            then Some ((res, None), w\<lparr>calls := calls w + 1\<rparr>)
          else if currentState \<in> set (Pending conf)
            then (if deadline \<le> clock w + max (backoff (calls w)) (MinTimeout conf)
                  then Some ((IfaceNil, Some TimeoutError),
                             \<lparr>clock = clock w + max (backoff (calls w)) (MinTimeout conf),
                              calls = calls w + 1\<rparr>)
                  else refresh_loop conf backoff deadline
                         \<lparr>clock = clock w + max (backoff (calls w)) (MinTimeout conf),
                          calls = calls w + 1\<rparr>)
          else Some ((IfaceNil, Some (UnexpectedStateError currentState)),
                     w\<lparr>calls := calls w + 1\<rparr>))"

text \<open>
  Modelled from the spec: the wait first sleeps for the initial delay; the deadline is
  the timeout, counted from the start of the wait.
\<close>

definition WaitForState ::
  "StateChangeConf \<Rightarrow> (nat \<Rightarrow> Duration) \<Rightarrow> World
     \<Rightarrow> ((iface \<times> error option) \<times> World) option" where
  "WaitForState conf backoff w =
     refresh_loop conf backoff (clock w + Timeout conf) (w\<lparr>clock := clock w + Delay conf\<rparr>)"

section \<open>The dedicated-firewall poller\<close>

definition vlanMask :: string where
  "vlanMask =
     ''firewallNetworkComponents,networkVlanFirewall.billingItem.orderItem.order.id,dedicatedFirewallFlag''
     @ '',firewallGuestNetworkComponents,firewallInterfaces,firewallRules,highAvailabilityFirewallFlag''"

definition fw_filterPath :: string where
  "fw_filterPath = ''networkVlans.networkVlanFirewall.billingItem.orderItem.order.id''"

text \<open>The \<^verbatim>\<open>Refresh\<close> closure of \<^verbatim>\<open>findDedicatedFirewallByOrderId\<close>.\<close>

definition fw_Refresh :: "Session \<Rightarrow> int \<Rightarrow> nat \<Rightarrow> iface \<times> string \<times> error option" where
  "fw_Refresh sessWithRetry orderId k =
     (case sessWithRetry
             \<lparr>filterPath = fw_filterPath, filterEq = Itoa orderId, objectMask = vlanMask\<rparr> k of
        (vlans, err) \<Rightarrow>
          if err \<noteq> None then (IfaceVlan Network_Vlan_zero, '''', err)
          else if length vlans = 1 then (IfaceVlan (vlans ! 0), ''complete'', None)
          else if length vlans = 0 then (IfaceNil, ''pending'', None)
          else (IfaceNil, '''',
                Some (Errorf (''Expected one dedicated firewall: '' @ fmt_s err))))"

definition fw_stateConf :: "Session \<Rightarrow> int \<Rightarrow> StateChangeConf" where
  "fw_stateConf sessWithRetry orderId =
     \<lparr>Pending = [''pending''],
      Target = [''complete''],
      Refresh = fw_Refresh sessWithRetry orderId,
      Timeout = 45 * Minute,
      Delay = 10 * Second,
      MinTimeout = 10 * Second\<rparr>"

definition findDedicatedFirewallByOrderId ::
  "Session \<Rightarrow> (nat \<Rightarrow> Duration) \<Rightarrow> int \<Rightarrow> World
     \<Rightarrow> ((Network_Vlan \<times> error option) \<times> World) option" where
  "findDedicatedFirewallByOrderId sessWithRetry backoff orderId w =
     (case WaitForState (fw_stateConf sessWithRetry orderId) backoff w of
        None \<Rightarrow> None
      | Some ((pendingResult, err), w') \<Rightarrow>
          Some (if err \<noteq> None then (Network_Vlan_zero, err)
                else (case pendingResult of
                        IfaceVlan result \<Rightarrow> (result, None)
                      | IfaceNil \<Rightarrow>
                          (Network_Vlan_zero,
                           Some (Errorf (''Cannot find Dedicated Firewall with order id ''
                                         @ [CHR 0x27] @ Itoa orderId @ [CHR 0x27])))),
                w'))"

section \<open>The VLAN poller\<close>

definition vlan_filterPath :: string where
  "vlan_filterPath = ''networkVlans.billingItem.orderItem.order.id''"

text \<open>The \<^verbatim>\<open>Refresh\<close> closure of \<^verbatim>\<open>findVlanByOrderId\<close>.\<close>

definition vlan_Refresh :: "Session \<Rightarrow> int \<Rightarrow> nat \<Rightarrow> iface \<times> string \<times> error option" where
  "vlan_Refresh sess orderId k =
     (case sess \<lparr>filterPath = vlan_filterPath, filterEq = Itoa orderId, objectMask = ''id''\<rparr> k of
        (vlans, err) \<Rightarrow>
          if err \<noteq> None then (IfaceVlan Network_Vlan_zero, '''', err)
          else if length vlans = 1 then (IfaceVlan (vlans ! 0), ''complete'', None)
          else if length vlans = 0 then (IfaceNil, ''pending'', None)
          else (IfaceNil, '''', Some (Errorf (''Expected one vlan: '' @ fmt_s err))))"

definition vlan_stateConf :: "Session \<Rightarrow> int \<Rightarrow> StateChangeConf" where
  "vlan_stateConf sess orderId =
     \<lparr>Pending = [''pending''],
      Target = [''complete''],
      Refresh = vlan_Refresh sess orderId,
      Timeout = 10 * Minute,
      Delay = 5 * Second,
      MinTimeout = 3 * Second\<rparr>"

definition findVlanByOrderId ::
  "Session \<Rightarrow> (nat \<Rightarrow> Duration) \<Rightarrow> int \<Rightarrow> World
     \<Rightarrow> ((Network_Vlan \<times> error option) \<times> World) option" where
  "findVlanByOrderId sess backoff orderId w =
     (case WaitForState (vlan_stateConf sess orderId) backoff w of
        None \<Rightarrow> None
      | Some ((pendingResult, err), w') \<Rightarrow>
          Some (if err \<noteq> None then (Network_Vlan_zero, err)
                else (case pendingResult of
                        IfaceVlan result \<Rightarrow> (result, None)
                      | IfaceNil \<Rightarrow>
                          (Network_Vlan_zero,
                           Some (Errorf (''Cannot find vlan with order id ''
                                         @ [CHR 0x27] @ Itoa orderId @ [CHR 0x27])))),
                w'))"

section \<open>The two pollers as one polling pattern\<close>

text \<open>
  The contract of the specification's order-completion poller,
  \<^verbatim>\<open>await(orderId, filterPathTemplate, listFn, timeout, delay, minInterval)\<close>: one
  definition for both call sites, with everything in which the two source functions
  differ gathered in a request: filter path, object mask, the three timing parameters
  and the resource names used in the two error messages. It is compared with the two
  source functions below; it is not a translation of either.
\<close>

record PollRequest =
  pollPath :: string
  pollMask :: string
  pollTimeout :: Duration
  initialDelay :: Duration
  minPollInterval :: Duration
  expectedLabel :: string
  cannotFindLabel :: string

definition await_Refresh ::
  "PollRequest \<Rightarrow> Session \<Rightarrow> int \<Rightarrow> nat \<Rightarrow> iface \<times> string \<times> error option" where
  "await_Refresh rq listFn orderId k =
     (case listFn \<lparr>filterPath = pollPath rq, filterEq = Itoa orderId,
                   objectMask = pollMask rq\<rparr> k of
        (vlans, err) \<Rightarrow>
          if err \<noteq> None then (IfaceVlan Network_Vlan_zero, '''', err)
          else if length vlans = 1 then (IfaceVlan (vlans ! 0), ''complete'', None)
          else if length vlans = 0 then (IfaceNil, ''pending'', None)
          else (IfaceNil, '''',
                Some (Errorf (''Expected one '' @ expectedLabel rq @ '': '' @ fmt_s err))))"

definition await_stateConf :: "PollRequest \<Rightarrow> Session \<Rightarrow> int \<Rightarrow> StateChangeConf" where
  "await_stateConf rq listFn orderId =
     \<lparr>Pending = [''pending''],
      Target = [''complete''],
      Refresh = await_Refresh rq listFn orderId,
      Timeout = pollTimeout rq,
      Delay = initialDelay rq,
      MinTimeout = minPollInterval rq\<rparr>"

definition await ::
  "PollRequest \<Rightarrow> Session \<Rightarrow> (nat \<Rightarrow> Duration) \<Rightarrow> int \<Rightarrow> World
     \<Rightarrow> ((Network_Vlan \<times> error option) \<times> World) option" where
  "await rq listFn backoff orderId w =
     (case WaitForState (await_stateConf rq listFn orderId) backoff w of
        None \<Rightarrow> None
      | Some ((pendingResult, err), w') \<Rightarrow>
          Some (if err \<noteq> None then (Network_Vlan_zero, err)
                else (case pendingResult of
                        IfaceVlan result \<Rightarrow> (result, None)
                      | IfaceNil \<Rightarrow>
                          (Network_Vlan_zero,
                           Some (Errorf (''Cannot find '' @ cannotFindLabel rq @ '' with order id ''
                                         @ [CHR 0x27] @ Itoa orderId @ [CHR 0x27])))),
                w'))"

definition fw_request :: PollRequest where
  "fw_request =
     \<lparr>pollPath = ''networkVlans.networkVlanFirewall.billingItem.orderItem.order.id'',
      pollMask = vlanMask,
      pollTimeout = 45 * 60 * Second,
      initialDelay = 10 * Second,
      minPollInterval = 10 * Second,
      expectedLabel = ''dedicated firewall'',
      cannotFindLabel = ''Dedicated Firewall''\<rparr>"

definition vlan_request :: PollRequest where
  "vlan_request =
     \<lparr>pollPath = ''networkVlans.billingItem.orderItem.order.id'',
      pollMask = ''id'',
      pollTimeout = 10 * 60 * Second,
      initialDelay = 5 * Second,
      minPollInterval = 3 * Second,
      expectedLabel = ''vlan'',
      cannotFindLabel = ''vlan''\<rparr>"

section \<open>Reading a run of the wait\<close>

text \<open>
  The time slept after the refreshes \<open>i, \<dots>, i + n - 1\<close> when all of them are
  pending: each interval is the proposed backoff, raised to the minimum interval.
\<close>

primrec slept :: "Duration \<Rightarrow> (nat \<Rightarrow> Duration) \<Rightarrow> nat \<Rightarrow> nat \<Rightarrow> Duration" where
  "slept m backoff i 0 = 0"
| "slept m backoff i (Suc n) = max (backoff i) m + slept m backoff (Suc i) n"

text \<open>
  The time on the clock, counted from the start of the wait, when refresh number \<open>n\<close>
  (from 0) is made, all earlier ones having been pending.
\<close>

definition tick_time :: "StateChangeConf \<Rightarrow> (nat \<Rightarrow> Duration) \<Rightarrow> nat \<Rightarrow> Duration" where
  "tick_time conf backoff n = Delay conf + slept (MinTimeout conf) backoff 0 n"

text \<open>
  Refresh number \<open>k\<close> reports a pending state and no error.
\<close>

definition pending_at :: "StateChangeConf \<Rightarrow> nat \<Rightarrow> bool" where
  "pending_at conf k =
     (case Refresh conf k of
        (res, currentState, err) \<Rightarrow>
          err = None \<and> currentState \<notin> set (Target conf) \<and> currentState \<in> set (Pending conf))"

section \<open>Fake collaborators\<close>

text \<open>
  The fake listing collaborator of the specification's poller properties: no result for
  the first \<open>N\<close> calls, then always the answer \<open>final\<close>, whatever the request.
\<close>

definition fake_session :: "nat \<Rightarrow> Network_Vlan list \<times> error option \<Rightarrow> Session" where
  "fake_session N final req k = (if k < N then ([], None) else final)"

text \<open>
  Two backoff schedules: none (every sleep is the minimum interval), and a constant
  ten seconds.
\<close>

definition no_backoff :: "nat \<Rightarrow> Duration" where
  "no_backoff k = 0"


definition vlan7 :: Network_Vlan where
  "vlan7 = \<lparr>Id_ptr = Some 7, Name_ptr = None\<rparr>"

definition vlan8 :: Network_Vlan where
  "vlan8 = \<lparr>Id_ptr = Some 8, Name_ptr = None\<rparr>"

section \<open>The wait as the host framework runs it\<close>

text \<open>
  Modelled from the spec: section 9 says that the polling construct of the source relies
  on a generic state-change wait utility of the host framework. That utility,
  \<^verbatim>\<open>WaitForState\<close> of \<^verbatim>\<open>resource.StateChangeConf\<close>, is not among the sources, and
  section 4.1 gives its loop in outline only (\<open>refresh_loop\<close> above). The definitions of
  this section follow the utility itself where it does more than the outline:
  \<^item> a refresh that returns a nil result counts as "not found", whatever state it
    reports; after more than \<^verbatim>\<open>NotFoundChecks\<close> such refreshes in a row the wait ends
    with a not-found error. The field defaults to 20 and neither poller sets it;
  \<^item> the pause between refreshes is not open: none before the first refresh, then
    100 ms doubled after every refresh, raised to \<^verbatim>\<open>MinTimeout\<close> and otherwise capped at
    10 s (no \<^verbatim>\<open>PollInterval\<close> is set);
  \<^item> the timeout is a timer started with the wait; it ends the wait when it fires
    before the next refresh is due;
  \<^item> one occurrence of a target state ends the wait
    (\<^verbatim>\<open>ContinuousTargetOccurence\<close> is not set).
  A refresh takes no time on the modelled clock.
\<close>

definition Millisecond :: Duration where
  "Millisecond = 1000000"

definition NotFoundChecks :: nat where
  "NotFoundChecks = 20"

text \<open>
  The variable \<^verbatim>\<open>wait\<close> of the loop: zero in the first round, set to 100 ms once that
  round's (empty) pause is over.
\<close>

definition first_wait :: "Duration \<Rightarrow> Duration" where
  "first_wait wait = (if wait = 0 then 100 * Millisecond else wait)"

text \<open>
  The end of a round: \<^verbatim>\<open>wait *= 2\<close>, then the bounds.
\<close>

definition next_wait :: "StateChangeConf \<Rightarrow> Duration \<Rightarrow> Duration" where
  "next_wait conf wait =
     (if wait * 2 < MinTimeout conf then MinTimeout conf
      else if wait * 2 > 10 * Second then 10 * Second
      else wait * 2)"

text \<open>
  One round: pause for \<open>wait\<close> unless the timer fires first, refresh, then decide.
  \<open>notfoundTick\<close> is the loop's counter of nil results in a row.
\<close>

partial_function (option) refresh_rounds ::
  "StateChangeConf \<Rightarrow> Duration \<Rightarrow> nat \<Rightarrow> Duration \<Rightarrow> World
     \<Rightarrow> ((iface \<times> error option) \<times> World) option" where
  "refresh_rounds conf deadline notfoundTick wait w =
     (if deadline \<le> clock w + wait
      then Some ((IfaceNil, Some TimeoutError), w\<lparr>clock := deadline\<rparr>)
      else
        (case Refresh conf (calls w) of
           (res, currentState, err) \<Rightarrow>
             if err \<noteq> None
               then Some ((res, err), \<lparr>clock = clock w + wait, calls = calls w + 1\<rparr>)
             else if res = IfaceNil \<and> Target conf = []
               then Some ((res, None), \<lparr>clock = clock w + wait, calls = calls w + 1\<rparr>)
             else if res = IfaceNil
               then (if notfoundTick + 1 > NotFoundChecks
                     then Some ((res, Some (NotFoundError (notfoundTick + 1))),
                                \<lparr>clock = clock w + wait, calls = calls w + 1\<rparr>)
                     else refresh_rounds conf deadline (notfoundTick + 1)
                            (next_wait conf (first_wait wait))
                            \<lparr>clock = clock w + wait, calls = calls w + 1\<rparr>)
             else if currentState \<in> set (Target conf)
               then Some ((res, None), \<lparr>clock = clock w + wait, calls = calls w + 1\<rparr>)
             else if currentState \<in> set (Pending conf) \<or> Pending conf = []
               then refresh_rounds conf deadline 0 (next_wait conf (first_wait wait))
                      \<lparr>clock = clock w + wait, calls = calls w + 1\<rparr>
             else Some ((res, Some (UnexpectedStateError currentState)),
                        \<lparr>clock = clock w + wait, calls = calls w + 1\<rparr>)))"

text \<open>
  The wait: the initial delay, then the rounds, the first with no pause. A delay that
  is not shorter than the timeout lets the timer fire before any refresh.
\<close>

definition WaitForState_framework ::
  "StateChangeConf \<Rightarrow> World \<Rightarrow> ((iface \<times> error option) \<times> World) option" where
  "WaitForState_framework conf w =
     (if Timeout conf \<le> Delay conf
      then Some ((IfaceNil, Some TimeoutError), w\<lparr>clock := clock w + Timeout conf\<rparr>)
      else refresh_rounds conf (clock w + Timeout conf) 0 0
             (w\<lparr>clock := clock w + Delay conf\<rparr>))"

text \<open>
  The two pollers on this wait: the same configurations (with their \<^verbatim>\<open>Refresh\<close>
  closures) and the same handling of the result as in \<open>findDedicatedFirewallByOrderId\<close>
  and \<open>findVlanByOrderId\<close> above, lines 267-280 and 353-366 of the sources.
\<close>

definition findDedicatedFirewallByOrderId_framework ::
  "Session \<Rightarrow> int \<Rightarrow> World \<Rightarrow> ((Network_Vlan \<times> error option) \<times> World) option" where
  "findDedicatedFirewallByOrderId_framework sessWithRetry orderId w =
     (case WaitForState_framework (fw_stateConf sessWithRetry orderId) w of
        None \<Rightarrow> None
      | Some ((pendingResult, err), w') \<Rightarrow>
          Some (if err \<noteq> None then (Network_Vlan_zero, err)
                else (case pendingResult of
                        IfaceVlan result \<Rightarrow> (result, None)
                      | IfaceNil \<Rightarrow>
                          (Network_Vlan_zero,
                           Some (Errorf (''Cannot find Dedicated Firewall with order id ''
                                         @ [CHR 0x27] @ Itoa orderId @ [CHR 0x27])))),
                w'))"

definition findVlanByOrderId_framework ::
  "Session \<Rightarrow> int \<Rightarrow> World \<Rightarrow> ((Network_Vlan \<times> error option) \<times> World) option" where
  "findVlanByOrderId_framework sess orderId w =
     (case WaitForState_framework (vlan_stateConf sess orderId) w of
        None \<Rightarrow> None
      | Some ((pendingResult, err), w') \<Rightarrow>
          Some (if err \<noteq> None then (Network_Vlan_zero, err)
                else (case pendingResult of
                        IfaceVlan result \<Rightarrow> (result, None)
                      | IfaceNil \<Rightarrow>
                          (Network_Vlan_zero,
                           Some (Errorf (''Cannot find vlan with order id ''
                                         @ [CHR 0x27] @ Itoa orderId @ [CHR 0x27])))),
                w'))"

text \<open>
  Reading a run of the rounds: the time slept in the first \<open>n\<close> rounds that start with
  the pause \<open>wait\<close>, the pause of the round after them, and a refresh that finds nothing
  (nil result, no error).
\<close>

primrec slept_rounds :: "StateChangeConf \<Rightarrow> Duration \<Rightarrow> nat \<Rightarrow> Duration" where
  "slept_rounds conf wait 0 = 0"
| "slept_rounds conf wait (Suc n) = wait + slept_rounds conf (next_wait conf (first_wait wait)) n"

primrec wait_after :: "StateChangeConf \<Rightarrow> Duration \<Rightarrow> nat \<Rightarrow> Duration" where
  "wait_after conf wait 0 = wait"
| "wait_after conf wait (Suc n) = wait_after conf (next_wait conf (first_wait wait)) n"

definition not_found_at :: "StateChangeConf \<Rightarrow> nat \<Rightarrow> bool" where
  "not_found_at conf k = (case Refresh conf k of (res, currentState, err) \<Rightarrow> res = IfaceNil \<and> err = None)"

section \<open>Creating a VLAN\<close>

text \<open>
  How a call of a handler ends: it returns its \<^verbatim>\<open>error\<close> result, or the Go runtime
  panics.
\<close>

datatype outcome = Returned "error option" | Panic string

definition nil_dereference :: string where
  "nil_dereference = ''runtime error: invalid memory address or nil pointer dereference''"

text \<open>\<^verbatim>\<open>strings.Contains\<close>.\<close>

fun Contains :: "string \<Rightarrow> string \<Rightarrow> bool" where
  "Contains [] substr = (substr = [])"
| "Contains (c # s) substr = (take (length substr) (c # s) = substr \<or> Contains s substr)"

definition AdditionalServicesPackageType :: string where
  "AdditionalServicesPackageType = ''ADDITIONAL_SERVICES''"

definition AdditionalServicesNetworkVlanPackageType :: string where
  "AdditionalServicesNetworkVlanPackageType = ''ADDITIONAL_SERVICES_NETWORK_VLAN''"

text \<open>
  The fields of \<^verbatim>\<open>schema.ResourceData\<close> that the create handler reads
  (\<^verbatim>\<open>d.Get\<close>, \<^verbatim>\<open>getTags(d)\<close>) and the one it writes (\<^verbatim>\<open>d.SetId\<close>).
\<close>

record ResourceData =
  router_hostname :: string
  name :: string
  type :: string
  tags :: string
  resourceId :: string

record Container_Product_Order_Network_Vlan =
  PackageId :: "int option"
  Location :: "string option"
  Prices :: "int option list"
  Quantity :: "int option"
  RouterId :: "int option"

record Container_Product_Order_Receipt =
  OrderId :: "int option"

text \<open>
  The remote calls and the sibling functions of the handler, as answers:
  \<^verbatim>\<open>buildVlanProductOrderContainer\<close> by package type, \<^verbatim>\<open>PlaceOrder\<close>, the listing call
  of the poller, \<^verbatim>\<open>EditObject\<close> by VLAN id and template, \<^verbatim>\<open>setVlanTags\<close> and
  \<^verbatim>\<open>resourceIBMNetworkVlanRead\<close>.
\<close>

record VlanApi =
  buildVlanProductOrderContainer ::
    "ResourceData \<Rightarrow> string \<Rightarrow> Container_Product_Order_Network_Vlan \<times> error option"
  PlaceOrder ::
    "Container_Product_Order_Network_Vlan \<Rightarrow> Container_Product_Order_Receipt \<times> error option"
  session :: Session
  EditObject :: "int \<Rightarrow> Network_Vlan \<Rightarrow> error option"
  setVlanTags :: "int \<Rightarrow> string \<Rightarrow> error option"
  resourceIBMNetworkVlanRead :: "ResourceData \<Rightarrow> error option"

text \<open>
  The statements of \<^verbatim>\<open>resourceIBMNetworkVlanCreate\<close> from \<^verbatim>\<open>d.SetId\<close> on. Each
  \<^verbatim>\<open>*vlan.Id\<close> dereferences the pointer; on a nil pointer the runtime panics.
\<close>

definition vlanCreate_setId :: "ResourceData \<Rightarrow> VlanApi \<Rightarrow> Network_Vlan \<Rightarrow> outcome \<times> ResourceData" where
  "vlanCreate_setId d api vlan =
     (case Id_ptr vlan of
        None \<Rightarrow> (Panic nil_dereference, d)
      | Some id' \<Rightarrow>
          (let d' = d\<lparr>resourceId := Itoa id'\<rparr> in
           if tags d' \<noteq> '''' then
             (case setVlanTags api id' (tags d') of
                Some err \<Rightarrow> (Returned (Some err), d')
              | None \<Rightarrow> (Returned (resourceIBMNetworkVlanRead api d'), d'))
           else (Returned (resourceIBMNetworkVlanRead api d'), d')))"

text \<open>
  \<^verbatim>\<open>resourceIBMNetworkVlanCreate\<close>. The error of \<^verbatim>\<open>findVlanByOrderId\<close> is assigned to
  \<^verbatim>\<open>err\<close> and never read: the next statement either overwrites it or is skipped.
\<close>

definition resourceIBMNetworkVlanCreate ::
  "ResourceData \<Rightarrow> VlanApi \<Rightarrow> (nat \<Rightarrow> Duration) \<Rightarrow> World
     \<Rightarrow> (outcome \<times> ResourceData \<times> World) option" where
  "resourceIBMNetworkVlanCreate d api backoff w =
     (if (type d = ''PRIVATE'' \<and> length (router_hostname d) > 0
            \<and> Contains (router_hostname d) ''fcr'')
         \<or> (type d = ''PUBLIC'' \<and> length (router_hostname d) > 0
            \<and> Contains (router_hostname d) ''bcr'')
      then Some (Returned (Some (Errorf
             (''Error creating vlan: mismatch between vlan_type '' @ [CHR 0x27] @ type d
              @ [CHR 0x27] @ '' and router_hostname '' @ [CHR 0x27] @ router_hostname d
              @ [CHR 0x27]))), d, w)
      else
        (case (case buildVlanProductOrderContainer api d AdditionalServicesNetworkVlanPackageType of
                 (c, Some e) \<Rightarrow> buildVlanProductOrderContainer api d AdditionalServicesPackageType
               | (c, None) \<Rightarrow> (c, None)) of
           (productOrderContainer, Some err) \<Rightarrow>
             Some (Returned (Some (Errorf (''Error creating vlan: '' @ fmt_s (Some err)))), d, w)
         | (productOrderContainer, None) \<Rightarrow>
             (case PlaceOrder api productOrderContainer of
                (receipt, Some err) \<Rightarrow>
                  Some (Returned (Some (Errorf
                          (''Error during creation of vlan: '' @ fmt_s (Some err)))), d, w)
              | (receipt, None) \<Rightarrow>
                  (case OrderId receipt of
                     None \<Rightarrow> Some (Panic nil_dereference, d, w)
                   | Some orderId \<Rightarrow>
                       (case findVlanByOrderId (session api) backoff orderId w of
                          None \<Rightarrow> None
                        | Some ((vlan, err), w') \<Rightarrow>
                            (if length (name d) > 0 then
                               (case Id_ptr vlan of
                                  None \<Rightarrow> Some (Panic nil_dereference, d, w')
                                | Some id' \<Rightarrow>
                                    (case EditObject api id'
                                            \<lparr>Id_ptr = None, Name_ptr = Some (name d)\<rparr> of
                                       Some err' \<Rightarrow>
                                         Some (Returned (Some (Errorf
                                                 (''Error updating vlan: '' @ fmt_s (Some err')))),
                                               d, w')
                                     | None \<Rightarrow>
                                         (case vlanCreate_setId d api vlan of
                                            (r, d') \<Rightarrow> Some (r, d', w'))))
                             else (case vlanCreate_setId d api vlan of
                                     (r, d') \<Rightarrow> Some (r, d', w'))))))))"

text \<open>Sample collaborators for the create handler: every call succeeds.\<close>

definition demo_data :: ResourceData where
  "demo_data = \<lparr>router_hostname = '''', name = ''vlan-a'', type = ''PUBLIC'', tags = '''',
                 resourceId = ''''\<rparr>"

definition demo_container :: Container_Product_Order_Network_Vlan where
  "demo_container = \<lparr>PackageId = Some 1, Location = Some ''138124'', Prices = [Some 2, Some 3],
                      Quantity = Some 1, RouterId = None\<rparr>"

definition demo_api :: "Session \<Rightarrow> VlanApi" where
  "demo_api s =
     \<lparr>buildVlanProductOrderContainer = (\<lambda>d packageType. (demo_container, None)),
      PlaceOrder = (\<lambda>c. (\<lparr>OrderId = Some 42\<rparr>, None)),
      session = s,
      EditObject = (\<lambda>id template. None),
      setVlanTags = (\<lambda>id tags. None),
      resourceIBMNetworkVlanRead = (\<lambda>d. None)\<rparr>"

section \<open>Suppressing equivalent JSON\<close>

text \<open>
  The values that \<^verbatim>\<open>json.Unmarshal\<close> stores in an \<^verbatim>\<open>interface{}\<close>: nil, \<^verbatim>\<open>bool\<close>,
  \<^verbatim>\<open>float64\<close>, \<^verbatim>\<open>string\<close>, \<^verbatim>\<open>[]interface{}\<close> and \<^verbatim>\<open>map[string]interface{}\<close>. A decoded
  number is a finite \<^verbatim>\<open>float64\<close>, hence a rational; no arithmetic is done on it. A Go map
  is a finite map. On such values (no NaN, no nil slice or nil map inside)
  \<^verbatim>\<open>reflect.DeepEqual\<close> is equality of the values.
\<close>

datatype gov =
    GNil
  | GBool bool
  | GFloat64 rat
  | GString string
  | GSlice "gov list"
  | GMap "(string, gov) fmap"

type_synonym JsonObject = "(string, gov) fmap"

text \<open>The index expression \<^verbatim>\<open>m["key"]\<close>: a missing key gives the nil interface.\<close>

definition index :: "JsonObject \<Rightarrow> string \<Rightarrow> gov" where
  "index m k = (case fmlookup m k of None \<Rightarrow> GNil | Some v \<Rightarrow> v)"

text \<open>
  A value may be the key of a \<^verbatim>\<open>map[interface{}]interface{}\<close> unless its dynamic type is
  a slice or a map; assigning under such a key panics at run time.
\<close>

fun hashable :: "gov \<Rightarrow> bool" where
  "hashable (GSlice xs) = False"
| "hashable (GMap m) = False"
| "hashable v = True"

definition unhashable_panic :: string where
  "unhashable_panic = ''runtime error: hash of unhashable type''"

text \<open>
  The loop \<^verbatim>\<open>for _, m := range objs { acc[m["key"]] = m["value"] }\<close>; \<open>Inl\<close> is the panic.
\<close>

fun collect :: "(gov, gov) fmap \<Rightarrow> JsonObject list \<Rightarrow> string + (gov, gov) fmap" where
  "collect acc [] = Inr acc"
| "collect acc (m # ms) =
     (if hashable (index m ''key'')
      then collect (fmupd (index m ''key'') (index m ''value'') acc) ms
      else Inl unhashable_panic)"

datatype jerror = JsonError string

text \<open>
  \<^verbatim>\<open>suppressEquivalentJSON\<close>. The decoder \<^verbatim>\<open>json.Unmarshal\<close> into
  \<^verbatim>\<open>[]map[string]interface{}\<close> belongs to the standard library and is the parameter
  \<open>Unmarshal\<close>. The result is the returned \<^verbatim>\<open>bool\<close>, or \<open>Inl\<close> for a panic. The
  arguments \<^verbatim>\<open>k\<close> and \<^verbatim>\<open>d\<close> are not used by the function; the log lines are left out.
\<close>

definition suppressEquivalentJSON ::
  "(string \<Rightarrow> jerror + JsonObject list) \<Rightarrow> string \<Rightarrow> string \<Rightarrow> string \<Rightarrow> string + bool" where
  "suppressEquivalentJSON Unmarshal k old new =
     (if old = '''' then Inr False
      else
        (case Unmarshal old of
           Inl err \<Rightarrow> Inr False
         | Inr oldObj \<Rightarrow>
             (case Unmarshal new of
                Inl err \<Rightarrow> Inr False
              | Inr newObj \<Rightarrow>
                  (case collect fmempty oldObj of
                     Inl p \<Rightarrow> Inl p
                   | Inr oldm \<Rightarrow>
                       (case collect fmempty newObj of
                          Inl p \<Rightarrow> Inl p
                        | Inr newm \<Rightarrow> Inr (oldm = newm))))))"

text \<open>
  The mapping of the specification, in its words: the array of \<open>{key, value}\<close> objects
  folded into a key-to-value mapping, the last object seen for a key winning.
  (\<open>map_of\<close> takes the first pair for a key, so the array is reversed.)
\<close>

definition wire_mapping :: "JsonObject list \<Rightarrow> (gov \<rightharpoonup> gov)" where
  "wire_mapping objs = map_of (rev (map (\<lambda>m. (index m ''key'', index m ''value'')) objs))"

text \<open>A sample decoder: it knows three texts and rejects every other one.\<close>

definition kv_object :: "gov \<Rightarrow> gov \<Rightarrow> JsonObject" where
  "kv_object k v = fmap_of_list [(''key'', k), (''value'', v)]"

definition json_ab :: string where
  \<open>json_ab = ''[{"key":"a","value":1},{"key":"b","value":2}]''\<close>

definition json_ba :: string where
  \<open>json_ba = ''[{"key":"b","value":2},{"key":"a","value":1}]''\<close>

definition json_a2 :: string where
  \<open>json_a2 = ''[{"key":"a","value":2},{"key":"b","value":2}]''\<close>

definition demo_Unmarshal :: "string \<Rightarrow> jerror + JsonObject list" where
  "demo_Unmarshal s =
     (if s = json_ab
        then Inr [kv_object (GString ''a'') (GFloat64 1), kv_object (GString ''b'') (GFloat64 2)]
      else if s = json_ba
        then Inr [kv_object (GString ''b'') (GFloat64 2), kv_object (GString ''a'') (GFloat64 1)]
      else if s = json_a2
        then Inr [kv_object (GString ''a'') (GFloat64 2), kv_object (GString ''b'') (GFloat64 2)]
      else Inl (JsonError ''invalid character''))"

section \<open>Qualified names\<close>

text \<open>
  Modelled from the spec: \<^verbatim>\<open>QualifiedName\<close>, \<^verbatim>\<open>NewQualifiedName\<close> and the formatting of a
  qualified name are called by the OpenWhisk handlers but are not among the sources.
  Section 3 of the specification gives the three string components, the entity name
  being mandatory.
\<close>

record QualifiedName =
  namespace :: string
  packageName :: string
  entityName :: string

datatype name_error = MalformedIdentifier string

text \<open>\<^verbatim>\<open>strings.Split\<close> with a separator of one character.\<close>

fun split_on :: "char \<Rightarrow> string \<Rightarrow> string list" where
  "split_on sep [] = [[]]"
| "split_on sep (c # cs) =
     (if c = sep then [] # split_on sep cs
      else (case split_on sep cs of
              seg # segs \<Rightarrow> (c # seg) # segs
            | [] \<Rightarrow> [[c]]))"

text \<open>
  Modelled from the spec: section 4.2 strips the leading empty segment that a leading
  \<^verbatim>\<open>/\<close> leaves.
\<close>

definition strip_leading :: "string list \<Rightarrow> string list" where
  "strip_leading segs =
     (case segs of
        [] # seg # rest \<Rightarrow> seg # rest
      | _ \<Rightarrow> segs)"

text \<open>
  Modelled from the spec: \<^verbatim>\<open>parse\<close> of section 4.2. Split on \<^verbatim>\<open>/\<close>; after the optional
  leading slash come one, two or three segments, none of them empty: the entity name
  alone, namespace and entity name, or namespace, package and entity name. An empty
  segment (so an empty entity name, or a trailing slash) and more than three segments
  are malformed identifiers, reported with the raw string.
\<close>

definition parse :: "string \<Rightarrow> name_error + QualifiedName" where
  "parse raw =
     (let segs = strip_leading (split_on CHR ''/'' raw) in
      if [] \<in> set segs then Inl (MalformedIdentifier raw)
      else
        (case segs of
           [e] \<Rightarrow> Inr \<lparr>namespace = '''', packageName = '''', entityName = e\<rparr>
         | [n, e] \<Rightarrow> Inr \<lparr>namespace = n, packageName = '''', entityName = e\<rparr>
         | [n, p, e] \<Rightarrow> Inr \<lparr>namespace = n, packageName = p, entityName = e\<rparr>
         | _ \<Rightarrow> Inl (MalformedIdentifier raw)))"

text \<open>
  Modelled from the spec: \<^verbatim>\<open>format\<close> of section 4.2 gives the canonical form, in which
  the presence of the leading slash is normalised: a name with a namespace is written
  with the leading slash, the components that are empty are left out.
\<close>

definition format :: "QualifiedName \<Rightarrow> string" where
  "format qn =
     (if namespace qn = '''' then '''' else ''/'' @ namespace qn @ ''/'')
     @ (if packageName qn = '''' then '''' else packageName qn @ ''/'')
     @ entityName qn"

section \<open>Lemmas on the wait loop\<close>

lemma refresh_loop_pending_step:
  assumes "pending_at conf (calls w)"
  shows "refresh_loop conf backoff deadline w =
           (if deadline \<le> clock w + max (backoff (calls w)) (MinTimeout conf)
            then Some ((IfaceNil, Some TimeoutError),
                       \<lparr>clock = clock w + max (backoff (calls w)) (MinTimeout conf),
                        calls = calls w + 1\<rparr>)
            else refresh_loop conf backoff deadline
                   \<lparr>clock = clock w + max (backoff (calls w)) (MinTimeout conf),
                    calls = calls w + 1\<rparr>)"
  using assms
  by (subst refresh_loop.simps) (auto simp: pending_at_def split: prod.splits)

lemma refresh_loop_skip:
  assumes "\<forall>k<n. pending_at conf (calls w + k)"
    and "\<forall>j. 0 < j \<and> j \<le> n \<longrightarrow> clock w + slept (MinTimeout conf) backoff (calls w) j < deadline"
  shows "refresh_loop conf backoff deadline w =
           refresh_loop conf backoff deadline
             \<lparr>clock = clock w + slept (MinTimeout conf) backoff (calls w) n,
              calls = calls w + n\<rparr>"
  using assms
proof (induction n arbitrary: w)
  case 0
  show ?case by (cases w) simp
next
  case (Suc n)
  let ?d = "max (backoff (calls w)) (MinTimeout conf)"
  let ?w2 = "\<lparr>clock = clock w + ?d, calls = calls w + 1\<rparr>"
  from Suc.prems(1) have p0: "pending_at conf (calls w)"
    by (metis add.right_neutral zero_less_Suc)
  from Suc.prems(2) have "clock w + slept (MinTimeout conf) backoff (calls w) 1 < deadline"
    by (metis One_nat_def Suc_le_mono le0 zero_less_Suc)
  then have lt: "\<not> deadline \<le> clock w + ?d" by simp
  have step: "refresh_loop conf backoff deadline w = refresh_loop conf backoff deadline ?w2"
    using refresh_loop_pending_step [OF p0, of backoff deadline] lt by simp
  have a1: "\<forall>k<n. pending_at conf (calls ?w2 + k)"
  proof (intro allI impI)
    fix k assume "k < n"
    then have "Suc k < Suc n" by simp
    with Suc.prems(1) have "pending_at conf (calls w + Suc k)" by blast
    then show "pending_at conf (calls ?w2 + k)" by simp
  qed
  have a2: "\<forall>j. 0 < j \<and> j \<le> n \<longrightarrow>
              clock ?w2 + slept (MinTimeout conf) backoff (calls ?w2) j < deadline"
  proof (intro allI impI)
    fix j assume "0 < j \<and> j \<le> n"
    then have "0 < Suc j \<and> Suc j \<le> Suc n" by simp
    with Suc.prems(2)
    have "clock w + slept (MinTimeout conf) backoff (calls w) (Suc j) < deadline"
      by blast
    then show "clock ?w2 + slept (MinTimeout conf) backoff (calls ?w2) j < deadline"
      by (simp add: add.assoc)
  qed
  show ?case
    using Suc.IH [OF a1 a2] step by (simp add: add.assoc)
qed

lemma slept_mono:
  assumes "0 \<le> m" and "j \<le> n"
  shows "slept m backoff i j \<le> slept m backoff i n"
  using assms(2)
proof (induction n arbitrary: i j)
  case 0
  then show ?case by simp
next
  case (Suc n)
  show ?case
  proof (cases j)
    case 0
    have "0 \<le> slept m backoff (Suc i) n" using Suc.IH [of 0 "Suc i"] by simp
    moreover have "0 \<le> max (backoff i) m" using assms(1) by simp
    ultimately show ?thesis using 0 by simp
  next
    case (Suc j')
    then show ?thesis using Suc.IH [of j' "Suc i"] Suc.prems by simp
  qed
qed

lemma slept_fixed:
  assumes "\<forall>k. max (backoff k) m = c"
  shows "slept m backoff i n = int n * c"
  using assms by (induction n arbitrary: i) (simp_all add: algebra_simps)

lemma WaitForState_skip:
  assumes pend: "\<forall>k<n. pending_at conf k"
    and m0: "0 \<le> MinTimeout conf"
    and reach: "n = 0 \<or> tick_time conf backoff n < Timeout conf"
  shows "WaitForState conf backoff World0 =
           refresh_loop conf backoff (Timeout conf)
             \<lparr>clock = tick_time conf backoff n, calls = n\<rparr>"
proof -
  let ?w = "\<lparr>clock = Delay conf, calls = 0\<rparr>"
  have a1: "\<forall>k<n. pending_at conf (calls ?w + k)" using pend by simp
  have a2: "\<forall>j. 0 < j \<and> j \<le> n \<longrightarrow>
              clock ?w + slept (MinTimeout conf) backoff (calls ?w) j < Timeout conf"
  proof (intro allI impI)
    fix j assume j: "0 < j \<and> j \<le> n"
    then have "tick_time conf backoff n < Timeout conf" using reach by auto
    moreover have "slept (MinTimeout conf) backoff 0 j \<le> slept (MinTimeout conf) backoff 0 n"
      using slept_mono [OF m0] j by blast
    ultimately show "clock ?w + slept (MinTimeout conf) backoff (calls ?w) j < Timeout conf"
      by (simp add: tick_time_def)
  qed
  show ?thesis
    using refresh_loop_skip [OF a1 a2]
    by (simp add: WaitForState_def World0_def tick_time_def)
qed

lemma refresh_loop_error:
  assumes "Refresh conf (calls w) = (res, st, Some e)"
  shows "refresh_loop conf backoff deadline w = Some ((res, Some e), w\<lparr>calls := calls w + 1\<rparr>)"
  using assms by (subst refresh_loop.simps) simp

lemma refresh_loop_target:
  assumes "Refresh conf (calls w) = (res, st, None)" and "st \<in> set (Target conf)"
  shows "refresh_loop conf backoff deadline w = Some ((res, None), w\<lparr>calls := calls w + 1\<rparr>)"
  using assms by (subst refresh_loop.simps) simp


lemma vlan_Refresh_zero:
  "sess \<lparr>filterPath = vlan_filterPath, filterEq = Itoa orderId, objectMask = ''id''\<rparr> k = ([], None)
   \<Longrightarrow> pending_at (vlan_stateConf sess orderId) k"
  by (simp add: pending_at_def vlan_stateConf_def vlan_Refresh_def)

lemma fw_conf_simps:
  "Timeout (fw_stateConf sess orderId) = 2700000000000"
  "Delay (fw_stateConf sess orderId) = 10000000000"
  "MinTimeout (fw_stateConf sess orderId) = 10000000000"
  "Target (fw_stateConf sess orderId) = [''complete'']"
  "Pending (fw_stateConf sess orderId) = [''pending'']"
  "Refresh (fw_stateConf sess orderId) = fw_Refresh sess orderId"
  by (simp_all add: fw_stateConf_def Minute_def Second_def)

lemma vlan_conf_simps:
  "Timeout (vlan_stateConf sess orderId) = 600000000000"
  "Delay (vlan_stateConf sess orderId) = 5000000000"
  "MinTimeout (vlan_stateConf sess orderId) = 3000000000"
  "Target (vlan_stateConf sess orderId) = [''complete'']"
  "Pending (vlan_stateConf sess orderId) = [''pending'']"
  "Refresh (vlan_stateConf sess orderId) = vlan_Refresh sess orderId"
  by (simp_all add: vlan_stateConf_def Minute_def Second_def)

lemma WaitForState_ends_at:
  assumes pend: "\<forall>k<n. pending_at conf k"
    and m0: "0 \<le> MinTimeout conf"
    and reach: "n = 0 \<or> tick_time conf backoff n < Timeout conf"
    and r: "Refresh conf n = (res, st, err)"
    and fin: "err \<noteq> None \<or> st \<in> set (Target conf)"
  shows "WaitForState conf backoff World0 =
           Some ((res, err), \<lparr>clock = tick_time conf backoff n, calls = Suc n\<rparr>)"
proof -
  let ?w = "\<lparr>clock = tick_time conf backoff n, calls = n\<rparr>"
  have s: "WaitForState conf backoff World0 = refresh_loop conf backoff (Timeout conf) ?w"
    by (rule WaitForState_skip [OF pend m0 reach])
  show ?thesis
  proof (cases err)
    case None
    with fin have "st \<in> set (Target conf)" by simp
    with r None show ?thesis
      using refresh_loop_target [of conf ?w res st backoff "Timeout conf"] s by simp
  next
    case (Some e)
    with r show ?thesis
      using refresh_loop_error [of conf ?w res st e backoff "Timeout conf"] s by simp
  qed
qed


lemma vlan_find_ends_at:
  assumes zero: "\<forall>req. \<forall>k<n. sess req k = ([], None)"
    and last: "\<forall>req. sess req n = (vlans, err)"
    and fin: "err \<noteq> None \<or> vlans \<noteq> []"
    and reach: "tick_time (vlan_stateConf sess orderId) backoff n < Timeout (vlan_stateConf sess orderId)"
  shows "findVlanByOrderId sess backoff orderId World0 =
           Some (if err \<noteq> None then (Network_Vlan_zero, err)
                 else if length vlans = 1 then (vlans ! 0, None)
                 else (Network_Vlan_zero, Some (Errorf ''Expected one vlan: %!s(<nil>)'')),
                 \<lparr>clock = tick_time (vlan_stateConf sess orderId) backoff n, calls = Suc n\<rparr>)"
proof -
  let ?conf = "vlan_stateConf sess orderId"
  let ?res = "if err \<noteq> None then IfaceVlan Network_Vlan_zero
              else if length vlans = 1 then IfaceVlan (vlans ! 0) else IfaceNil"
  let ?st = "if err = None \<and> length vlans = 1 then ''complete'' else ''''"
  let ?err = "if err \<noteq> None then err
              else if length vlans = 1 then None
              else Some (Errorf ''Expected one vlan: %!s(<nil>)'')"
  have pend: "\<forall>k<n. pending_at ?conf k"
    using zero by (simp add: vlan_Refresh_zero)
  have r: "Refresh ?conf n = (?res, ?st, ?err)"
    using last fin by (cases err) (auto simp: vlan_conf_simps vlan_Refresh_def fmt_s_def)
  have f: "?err \<noteq> None \<or> ?st \<in> set (Target ?conf)"
    by (simp add: vlan_conf_simps)
  have "WaitForState ?conf backoff World0 =
          Some ((?res, ?err), \<lparr>clock = tick_time ?conf backoff n, calls = Suc n\<rparr>)"
    using WaitForState_ends_at [OF pend _ _ r f, of backoff] reach
    by (simp add: vlan_conf_simps)
  then show ?thesis
    by (simp add: findVlanByOrderId_def)
qed

lemma fw_stateConf_await: "fw_stateConf sess orderId = await_stateConf fw_request sess orderId"
proof -
  have "fw_Refresh sess orderId = await_Refresh fw_request sess orderId"
    by (rule ext)
       (simp add: fw_Refresh_def await_Refresh_def fw_request_def fw_filterPath_def
          split: prod.splits)
  then show ?thesis
    by (simp add: fw_stateConf_def await_stateConf_def fw_request_def Minute_def)
qed

lemma vlan_stateConf_await:
  "vlan_stateConf sess orderId = await_stateConf vlan_request sess orderId"
proof -
  have "vlan_Refresh sess orderId = await_Refresh vlan_request sess orderId"
    by (rule ext)
       (simp add: vlan_Refresh_def await_Refresh_def vlan_request_def vlan_filterPath_def
          split: prod.splits)
  then show ?thesis
    by (simp add: vlan_stateConf_def await_stateConf_def vlan_request_def Minute_def)
qed


lemma tick_time_no_backoff_vlan:
  "tick_time (vlan_stateConf sess orderId) no_backoff n = 5 * Second + int n * (3 * Second)"
proof -
  have "\<forall>k. max (no_backoff k) (3 * Second) = 3 * Second"
    by (simp add: no_backoff_def Second_def)
  then show ?thesis
    by (simp add: tick_time_def vlan_stateConf_def slept_fixed)
qed

section \<open>The pollers: claims\<close>





text \<open>
  C6. In both refresh closures, when the listing call gives more than one result, either
  its error is not nil and the closure returns that error from its first branch, or the
  ambiguous-match branch is taken with a nil error, and its message then always ends in
  the formatting of a nil error, \<^verbatim>\<open>%!s(<nil>)\<close>.
\<close>

theorem ambiguous_message_formats_nil:
  "(sess \<lparr>filterPath = fw_filterPath, filterEq = Itoa orderId, objectMask = vlanMask\<rparr> k
      = (vlans, err) \<and> 1 < length vlans \<longrightarrow>
    fw_Refresh sess orderId k =
      (case err of
         Some e \<Rightarrow> (IfaceVlan Network_Vlan_zero, '''', Some e)
       | None \<Rightarrow> (IfaceNil, '''',
                  Some (Errorf ''Expected one dedicated firewall: %!s(<nil>)''))))
   \<and> (sess \<lparr>filterPath = vlan_filterPath, filterEq = Itoa orderId, objectMask = ''id''\<rparr> k
      = (vlans, err) \<and> 1 < length vlans \<longrightarrow>
    vlan_Refresh sess orderId k =
      (case err of
         Some e \<Rightarrow> (IfaceVlan Network_Vlan_zero, '''', Some e)
       | None \<Rightarrow> (IfaceNil, '''', Some (Errorf ''Expected one vlan: %!s(<nil>)''))))"
  by (cases err) (auto simp: fw_Refresh_def vlan_Refresh_def fmt_s_def)

theorem ambiguous_message_formats_nil_witness:
  "fw_Refresh (fake_session 0 ([vlan7, vlan8], None)) 42 0 =
     (IfaceNil, '''', Some (Errorf ''Expected one dedicated firewall: %!s(<nil>)''))
   \<and> vlan_Refresh (fake_session 0 ([vlan7, vlan8], None)) 42 0 =
     (IfaceNil, '''', Some (Errorf ''Expected one vlan: %!s(<nil>)''))"
  using ambiguous_message_formats_nil
    [of "fake_session 0 ([vlan7, vlan8], None)" 42 0 "[vlan7, vlan8]" None]
  by (simp add: fake_session_def)

text \<open>
  C9. Each poller is the one polling pattern \<open>await\<close> at its own request, and the
  requests carry the stated parameters: the firewall poller filters on
  \<^verbatim>\<open>networkVlans.networkVlanFirewall.billingItem.orderItem.order.id\<close> with a timeout
  of 45 minutes, an initial delay of 10 seconds and a minimum interval of 10 seconds;
  the VLAN poller filters on \<^verbatim>\<open>networkVlans.billingItem.orderItem.order.id\<close> with
  10 minutes, 5 seconds and 3 seconds. The requests also carry the object mask and the
  resource name printed in the error messages.
\<close>

theorem poller_call_sites:
  "findDedicatedFirewallByOrderId =
     await \<lparr>pollPath = ''networkVlans.networkVlanFirewall.billingItem.orderItem.order.id'',
            pollMask = vlanMask,
            pollTimeout = 45 * 60 * Second,
            initialDelay = 10 * Second,
            minPollInterval = 10 * Second,
            expectedLabel = ''dedicated firewall'',
            cannotFindLabel = ''Dedicated Firewall''\<rparr>
   \<and> findVlanByOrderId =
     await \<lparr>pollPath = ''networkVlans.billingItem.orderItem.order.id'',
            pollMask = ''id'',
            pollTimeout = 10 * 60 * Second,
            initialDelay = 5 * Second,
            minPollInterval = 3 * Second,
            expectedLabel = ''vlan'',
            cannotFindLabel = ''vlan''\<rparr>"
proof -
  have "findDedicatedFirewallByOrderId sess backoff orderId w =
          await fw_request sess backoff orderId w" for sess backoff orderId w
    unfolding findDedicatedFirewallByOrderId_def await_def fw_stateConf_await
    by (simp add: fw_request_def split: option.splits prod.splits iface.splits)
  moreover have "findVlanByOrderId sess backoff orderId w =
          await vlan_request sess backoff orderId w" for sess backoff orderId w
    unfolding findVlanByOrderId_def await_def vlan_stateConf_await
    by (simp add: vlan_request_def split: option.splits prod.splits iface.splits)
  ultimately have "findDedicatedFirewallByOrderId = await fw_request"
    and "findVlanByOrderId = await vlan_request"
    by (intro ext, simp)+
  then show ?thesis
    by (simp add: fw_request_def vlan_request_def)
qed

section \<open>Lemmas on the framework's wait\<close>

lemma refresh_rounds_not_found_step:
  assumes "not_found_at conf (calls w)" and "Target conf \<noteq> []"
    and "\<not> deadline \<le> clock w + wait"
  shows "refresh_rounds conf deadline notfoundTick wait w =
           (if notfoundTick + 1 > NotFoundChecks
            then Some ((IfaceNil, Some (NotFoundError (notfoundTick + 1))),
                       \<lparr>clock = clock w + wait, calls = calls w + 1\<rparr>)
            else refresh_rounds conf deadline (notfoundTick + 1)
                   (next_wait conf (first_wait wait))
                   \<lparr>clock = clock w + wait, calls = calls w + 1\<rparr>)"
  using assms
  by (subst refresh_rounds.simps) (auto simp: not_found_at_def split: prod.splits)

lemma refresh_rounds_skip:
  assumes "\<forall>j<n. not_found_at conf (calls w + j)"
    and "Target conf \<noteq> []"
    and "notfoundTick + n \<le> NotFoundChecks"
    and "\<forall>j. 0 < j \<and> j \<le> n \<longrightarrow> clock w + slept_rounds conf wait j < deadline"
  shows "refresh_rounds conf deadline notfoundTick wait w =
           refresh_rounds conf deadline (notfoundTick + n) (wait_after conf wait n)
             \<lparr>clock = clock w + slept_rounds conf wait n, calls = calls w + n\<rparr>"
  using assms
proof (induction n arbitrary: w wait notfoundTick)
  case 0
  show ?case by (cases w) simp
next
  case (Suc n)
  let ?w2 = "\<lparr>clock = clock w + wait, calls = calls w + 1\<rparr>"
  let ?wait2 = "next_wait conf (first_wait wait)"
  from Suc.prems(1) have p0: "not_found_at conf (calls w)"
    by (metis add.right_neutral zero_less_Suc)
  from Suc.prems(4) have "clock w + slept_rounds conf wait (Suc 0) < deadline"
    by (metis Suc_le_mono le0 zero_less_Suc)
  then have lt: "\<not> deadline \<le> clock w + wait" by simp
  from Suc.prems(3) have nf: "\<not> notfoundTick + 1 > NotFoundChecks" by simp
  have step: "refresh_rounds conf deadline notfoundTick wait w =
                refresh_rounds conf deadline (notfoundTick + 1) ?wait2 ?w2"
    using refresh_rounds_not_found_step [OF p0 Suc.prems(2) lt, of notfoundTick] nf by simp
  have a1: "\<forall>j<n. not_found_at conf (calls ?w2 + j)"
  proof (intro allI impI)
    fix j assume "j < n"
    then have "Suc j < Suc n" by simp
    with Suc.prems(1) have "not_found_at conf (calls w + Suc j)" by blast
    then show "not_found_at conf (calls ?w2 + j)" by simp
  qed
  have a3: "(notfoundTick + 1) + n \<le> NotFoundChecks" using Suc.prems(3) by simp
  have a4: "\<forall>j. 0 < j \<and> j \<le> n \<longrightarrow> clock ?w2 + slept_rounds conf ?wait2 j < deadline"
  proof (intro allI impI)
    fix j assume "0 < j \<and> j \<le> n"
    then have "0 < Suc j \<and> Suc j \<le> Suc n" by simp
    with Suc.prems(4) have "clock w + slept_rounds conf wait (Suc j) < deadline" by blast
    then show "clock ?w2 + slept_rounds conf ?wait2 j < deadline" by (simp add: add.assoc)
  qed
  show ?case
    using Suc.IH [OF a1 Suc.prems(2) a3 a4] step by (simp add: add.assoc)
qed

lemma next_wait_nonneg: "0 \<le> MinTimeout conf \<Longrightarrow> 0 \<le> wait \<Longrightarrow> 0 \<le> next_wait conf wait"
  by (simp add: next_wait_def Second_def)

lemma first_wait_nonneg: "0 \<le> wait \<Longrightarrow> 0 \<le> first_wait wait"
  by (simp add: first_wait_def Millisecond_def)

lemma slept_rounds_mono:
  assumes "0 \<le> MinTimeout conf"
  shows "0 \<le> wait \<Longrightarrow> j \<le> n \<Longrightarrow> slept_rounds conf wait j \<le> slept_rounds conf wait n"
proof (induction n arbitrary: wait j)
  case 0
  then show ?case by simp
next
  case (Suc n)
  have w2: "0 \<le> next_wait conf (first_wait wait)"
    using assms Suc.prems(1) by (simp add: next_wait_nonneg first_wait_nonneg)
  show ?case
  proof (cases j)
    case 0
    have "0 \<le> slept_rounds conf (next_wait conf (first_wait wait)) n"
      using Suc.IH [OF w2, of 0] by simp
    with Suc.prems(1) 0 show ?thesis by simp
  next
    case (Suc j')
    then show ?thesis using Suc.IH [OF w2, of j'] Suc.prems(2) by simp
  qed
qed

lemma WaitForState_framework_gives_up:
  assumes nf: "\<forall>k<Suc NotFoundChecks. not_found_at conf k"
    and tg: "Target conf \<noteq> []"
    and m0: "0 \<le> MinTimeout conf"
    and d0: "0 \<le> Delay conf"
    and intime: "Delay conf + slept_rounds conf 0 (Suc NotFoundChecks) < Timeout conf"
  shows "WaitForState_framework conf World0 =
           Some ((IfaceNil, Some (NotFoundError (Suc NotFoundChecks))),
                 \<lparr>clock = Delay conf + slept_rounds conf 0 (Suc NotFoundChecks),
                  calls = Suc NotFoundChecks\<rparr>)"
proof -
  let ?w = "\<lparr>clock = Delay conf, calls = 0\<rparr>"
  let ?n = NotFoundChecks
  have mono: "slept_rounds conf 0 j \<le> slept_rounds conf 0 (Suc ?n)" if "j \<le> Suc ?n" for j
    using slept_rounds_mono [OF m0, of 0 j "Suc ?n"] that by simp
  have "0 \<le> slept_rounds conf 0 (Suc ?n)" using mono [of 0] by simp
  with intime d0 have dt: "\<not> Timeout conf \<le> Delay conf" by simp
  have a1: "\<forall>j<?n. not_found_at conf (calls ?w + j)" using nf by simp
  have a3: "0 + ?n \<le> NotFoundChecks" by simp
  have a4: "\<forall>j. 0 < j \<and> j \<le> ?n \<longrightarrow> clock ?w + slept_rounds conf 0 j < Timeout conf"
  proof (intro allI impI)
    fix j assume "0 < j \<and> j \<le> ?n"
    then have "slept_rounds conf 0 j \<le> slept_rounds conf 0 (Suc ?n)" using mono [of j] by simp
    with intime show "clock ?w + slept_rounds conf 0 j < Timeout conf" by simp
  qed
  let ?w20 = "\<lparr>clock = Delay conf + slept_rounds conf 0 ?n, calls = ?n\<rparr>"
  have skip: "refresh_rounds conf (Timeout conf) 0 0 ?w =
                refresh_rounds conf (Timeout conf) ?n (wait_after conf 0 ?n) ?w20"
    using refresh_rounds_skip [OF a1 tg a3 a4] by simp
  have last_time: "slept_rounds conf 0 (Suc n) = slept_rounds conf 0 n + wait_after conf 0 n" for n
  proof -
    have "slept_rounds conf wait (Suc n) = slept_rounds conf wait n + wait_after conf wait n" for wait
      by (induction n arbitrary: wait) simp_all
    then show ?thesis .
  qed
  have p: "not_found_at conf (calls ?w20)" using nf by simp
  have lt: "\<not> Timeout conf \<le> clock ?w20 + wait_after conf 0 ?n"
    using intime last_time [of ?n] by simp
  have "refresh_rounds conf (Timeout conf) ?n (wait_after conf 0 ?n) ?w20 =
          Some ((IfaceNil, Some (NotFoundError (Suc ?n))),
                \<lparr>clock = Delay conf + slept_rounds conf 0 (Suc ?n), calls = Suc ?n\<rparr>)"
    using refresh_rounds_not_found_step [OF p tg lt, of ?n] last_time [of ?n]
    by (simp add: add.assoc)
  with skip dt show ?thesis
    by (simp add: WaitForState_framework_def World0_def)
qed

lemma fw_Refresh_not_found:
  "sess \<lparr>filterPath = fw_filterPath, filterEq = Itoa orderId, objectMask = vlanMask\<rparr> k = ([], None)
   \<Longrightarrow> not_found_at (fw_stateConf sess orderId) k"
  by (simp add: not_found_at_def fw_stateConf_def fw_Refresh_def)

lemma vlan_Refresh_not_found:
  "sess \<lparr>filterPath = vlan_filterPath, filterEq = Itoa orderId, objectMask = ''id''\<rparr> k = ([], None)
   \<Longrightarrow> not_found_at (vlan_stateConf sess orderId) k"
  by (simp add: not_found_at_def vlan_stateConf_def vlan_Refresh_def)

lemma fw_slept_rounds:
  "slept_rounds (fw_stateConf sess orderId) 0 (Suc NotFoundChecks) = 200 * Second"
  by (simp add: NotFoundChecks_def eval_nat_numeral next_wait_def first_wait_def
      fw_conf_simps Millisecond_def Second_def)

lemma vlan_slept_rounds:
  "slept_rounds (vlan_stateConf sess orderId) 0 (Suc NotFoundChecks) = 189 * Second"
  by (simp add: NotFoundChecks_def eval_nat_numeral next_wait_def first_wait_def
      vlan_conf_simps Millisecond_def Second_def)

lemma fw_framework_gives_up:
  assumes "\<forall>req. \<forall>k<21. sess req k = ([], None)"
  shows "findDedicatedFirewallByOrderId_framework sess orderId World0 =
           Some ((Network_Vlan_zero, Some (NotFoundError 21)),
                 \<lparr>clock = 210 * Second, calls = 21\<rparr>)"
proof -
  let ?conf = "fw_stateConf sess orderId"
  have nf: "\<forall>k<Suc NotFoundChecks. not_found_at ?conf k"
    using assms by (simp add: fw_Refresh_not_found NotFoundChecks_def)
  have "WaitForState_framework ?conf World0 =
          Some ((IfaceNil, Some (NotFoundError (Suc NotFoundChecks))),
                \<lparr>clock = Delay ?conf + slept_rounds ?conf 0 (Suc NotFoundChecks),
                 calls = Suc NotFoundChecks\<rparr>)"
  proof (rule WaitForState_framework_gives_up [OF nf])
    show "Target ?conf \<noteq> []" "0 \<le> MinTimeout ?conf" "0 \<le> Delay ?conf"
      by (simp_all add: fw_conf_simps)
    show "Delay ?conf + slept_rounds ?conf 0 (Suc NotFoundChecks) < Timeout ?conf"
      unfolding fw_slept_rounds by (simp add: fw_conf_simps Second_def)
  qed
  then have "WaitForState_framework ?conf World0 =
          Some ((IfaceNil, Some (NotFoundError 21)), \<lparr>clock = 210 * Second, calls = 21\<rparr>)"
    unfolding fw_slept_rounds by (simp add: fw_conf_simps NotFoundChecks_def Second_def)
  then show ?thesis
    by (simp add: findDedicatedFirewallByOrderId_framework_def)
qed

lemma vlan_framework_gives_up:
  assumes "\<forall>req. \<forall>k<21. sess req k = ([], None)"
  shows "findVlanByOrderId_framework sess orderId World0 =
           Some ((Network_Vlan_zero, Some (NotFoundError 21)),
                 \<lparr>clock = 194 * Second, calls = 21\<rparr>)"
proof -
  let ?conf = "vlan_stateConf sess orderId"
  have nf: "\<forall>k<Suc NotFoundChecks. not_found_at ?conf k"
    using assms by (simp add: vlan_Refresh_not_found NotFoundChecks_def)
  have "WaitForState_framework ?conf World0 =
          Some ((IfaceNil, Some (NotFoundError (Suc NotFoundChecks))),
                \<lparr>clock = Delay ?conf + slept_rounds ?conf 0 (Suc NotFoundChecks),
                 calls = Suc NotFoundChecks\<rparr>)"
  proof (rule WaitForState_framework_gives_up [OF nf])
    show "Target ?conf \<noteq> []" "0 \<le> MinTimeout ?conf" "0 \<le> Delay ?conf"
      by (simp_all add: vlan_conf_simps)
    show "Delay ?conf + slept_rounds ?conf 0 (Suc NotFoundChecks) < Timeout ?conf"
      unfolding vlan_slept_rounds by (simp add: vlan_conf_simps Second_def)
  qed
  then have "WaitForState_framework ?conf World0 =
          Some ((IfaceNil, Some (NotFoundError 21)), \<lparr>clock = 194 * Second, calls = 21\<rparr>)"
    unfolding vlan_slept_rounds by (simp add: vlan_conf_simps NotFoundChecks_def Second_def)
  then show ?thesis
    by (simp add: findVlanByOrderId_framework_def)
qed

lemma slept_rounds_last:
  "slept_rounds conf wait (Suc n) = slept_rounds conf wait n + wait_after conf wait n"
  by (induction n arbitrary: wait) simp_all

lemma refresh_rounds_found:
  assumes "Refresh conf (calls w) = (IfaceVlan v, st, None)" and "st \<in> set (Target conf)"
    and "\<not> deadline \<le> clock w + wait"
  shows "refresh_rounds conf deadline notfoundTick wait w =
           Some ((IfaceVlan v, None), \<lparr>clock = clock w + wait, calls = calls w + 1\<rparr>)"
  using assms by (subst refresh_rounds.simps) simp

lemma WaitForState_framework_found:
  assumes nf: "\<forall>k<n. not_found_at conf k"
    and n: "n \<le> NotFoundChecks"
    and r: "Refresh conf n = (IfaceVlan v, st, None)" "st \<in> set (Target conf)"
    and m0: "0 \<le> MinTimeout conf"
    and d0: "0 \<le> Delay conf"
    and intime: "Delay conf + slept_rounds conf 0 (Suc n) < Timeout conf"
  shows "WaitForState_framework conf World0 =
           Some ((IfaceVlan v, None),
                 \<lparr>clock = Delay conf + slept_rounds conf 0 (Suc n), calls = Suc n\<rparr>)"
proof -
  let ?w = "\<lparr>clock = Delay conf, calls = 0\<rparr>"
  have tg: "Target conf \<noteq> []" using r(2) by auto
  have mono: "slept_rounds conf 0 j \<le> slept_rounds conf 0 (Suc n)" if "j \<le> Suc n" for j
    using slept_rounds_mono [OF m0, of 0 j "Suc n"] that by simp
  have "0 \<le> slept_rounds conf 0 (Suc n)" using mono [of 0] by simp
  with intime d0 have dt: "\<not> Timeout conf \<le> Delay conf" by simp
  have a1: "\<forall>j<n. not_found_at conf (calls ?w + j)" using nf by simp
  have a3: "0 + n \<le> NotFoundChecks" using n by simp
  have a4: "\<forall>j. 0 < j \<and> j \<le> n \<longrightarrow> clock ?w + slept_rounds conf 0 j < Timeout conf"
  proof (intro allI impI)
    fix j assume "0 < j \<and> j \<le> n"
    then have "slept_rounds conf 0 j \<le> slept_rounds conf 0 (Suc n)" using mono [of j] by simp
    with intime show "clock ?w + slept_rounds conf 0 j < Timeout conf" by simp
  qed
  let ?wn = "\<lparr>clock = Delay conf + slept_rounds conf 0 n, calls = n\<rparr>"
  have skip: "refresh_rounds conf (Timeout conf) 0 0 ?w =
                refresh_rounds conf (Timeout conf) n (wait_after conf 0 n) ?wn"
    using refresh_rounds_skip [OF a1 tg a3 a4] by simp
  have lt: "\<not> Timeout conf \<le> clock ?wn + wait_after conf 0 n"
    using intime slept_rounds_last [of conf 0 n] by simp
  have "refresh_rounds conf (Timeout conf) n (wait_after conf 0 n) ?wn =
          Some ((IfaceVlan v, None),
                \<lparr>clock = Delay conf + slept_rounds conf 0 (Suc n), calls = Suc n\<rparr>)"
    using refresh_rounds_found [of conf ?wn v st "Timeout conf" "wait_after conf 0 n" n] r lt
      slept_rounds_last [of conf 0 n]
    by (simp add: add.assoc)
  with skip dt show ?thesis
    by (simp add: WaitForState_framework_def World0_def)
qed

section \<open>The pollers on the framework's wait: claims\<close>

text \<open>
  The single result is still returned when it comes with the 21st listing call, after
  twenty empty ones.
\<close>

lemma framework_returns_twenty_first_listing:
  "findDedicatedFirewallByOrderId_framework (fake_session 20 ([vlan7], None)) 42 World0 =
     Some ((vlan7, None), \<lparr>clock = 210 * Second, calls = 21\<rparr>)
   \<and> findVlanByOrderId_framework (fake_session 20 ([vlan7], None)) 42 World0 =
     Some ((vlan7, None), \<lparr>clock = 194 * Second, calls = 21\<rparr>)"
proof
  let ?s = "fake_session 20 ([vlan7], None)"
  let ?conf = "fw_stateConf ?s 42"
  have nf: "\<forall>k<20. not_found_at ?conf k"
    by (simp add: fw_Refresh_not_found fake_session_def)
  have r: "Refresh ?conf 20 = (IfaceVlan vlan7, ''complete'', None)"
    by (simp add: fw_conf_simps fw_Refresh_def fake_session_def)
  have "WaitForState_framework ?conf World0 =
          Some ((IfaceVlan vlan7, None),
                \<lparr>clock = Delay ?conf + slept_rounds ?conf 0 (Suc 20), calls = Suc 20\<rparr>)"
  proof (rule WaitForState_framework_found [OF nf _ r])
    show "20 \<le> NotFoundChecks" by (simp add: NotFoundChecks_def)
    show "''complete'' \<in> set (Target ?conf)" "0 \<le> MinTimeout ?conf" "0 \<le> Delay ?conf"
      by (simp_all add: fw_conf_simps)
    show "Delay ?conf + slept_rounds ?conf 0 (Suc 20) < Timeout ?conf"
      using fw_slept_rounds [of ?s 42] by (simp add: NotFoundChecks_def fw_conf_simps Second_def)
  qed
  then show "findDedicatedFirewallByOrderId_framework ?s 42 World0 =
               Some ((vlan7, None), \<lparr>clock = 210 * Second, calls = 21\<rparr>)"
    using fw_slept_rounds [of ?s 42]
    by (simp add: findDedicatedFirewallByOrderId_framework_def NotFoundChecks_def
        fw_conf_simps Second_def)
next
  let ?s = "fake_session 20 ([vlan7], None)"
  let ?conf = "vlan_stateConf ?s 42"
  have nf: "\<forall>k<20. not_found_at ?conf k"
    by (simp add: vlan_Refresh_not_found fake_session_def)
  have r: "Refresh ?conf 20 = (IfaceVlan vlan7, ''complete'', None)"
    by (simp add: vlan_conf_simps vlan_Refresh_def fake_session_def)
  have "WaitForState_framework ?conf World0 =
          Some ((IfaceVlan vlan7, None),
                \<lparr>clock = Delay ?conf + slept_rounds ?conf 0 (Suc 20), calls = Suc 20\<rparr>)"
  proof (rule WaitForState_framework_found [OF nf _ r])
    show "20 \<le> NotFoundChecks" by (simp add: NotFoundChecks_def)
    show "''complete'' \<in> set (Target ?conf)" "0 \<le> MinTimeout ?conf" "0 \<le> Delay ?conf"
      by (simp_all add: vlan_conf_simps)
    show "Delay ?conf + slept_rounds ?conf 0 (Suc 20) < Timeout ?conf"
      using vlan_slept_rounds [of ?s 42] by (simp add: NotFoundChecks_def vlan_conf_simps Second_def)
  qed
  then show "findVlanByOrderId_framework ?s 42 World0 =
               Some ((vlan7, None), \<lparr>clock = 194 * Second, calls = 21\<rparr>)"
    using vlan_slept_rounds [of ?s 42]
    by (simp add: findVlanByOrderId_framework_def NotFoundChecks_def
        vlan_conf_simps Second_def)
qed

text \<open>
  C1, the code at the failing input \<open>N = 21\<close>. The claim has both pollers return the one
  resource after at most 22 listing calls. On the framework's wait the 21st empty
  listing is one nil result too many: both pollers end there with the not-found error
  and the zero VLAN, after 21 calls, at 210 s (firewall) and 194 s (VLAN), long before
  their timeouts of 45 and 10 minutes; the result of the 22nd call is never asked for.
\<close>

theorem late_result_gives_not_found:
  "findDedicatedFirewallByOrderId_framework (fake_session 21 ([vlan7], None)) 42 World0 =
     Some ((Network_Vlan_zero, Some (NotFoundError 21)), \<lparr>clock = 210 * Second, calls = 21\<rparr>)
   \<and> findVlanByOrderId_framework (fake_session 21 ([vlan7], None)) 42 World0 =
     Some ((Network_Vlan_zero, Some (NotFoundError 21)), \<lparr>clock = 194 * Second, calls = 21\<rparr>)"
proof -
  have z: "\<forall>req. \<forall>k<21. fake_session 21 ([vlan7], None) req k = ([], None)"
    by (simp add: fake_session_def)
  show ?thesis
    using fw_framework_gives_up [OF z, of 42] vlan_framework_gives_up [OF z, of 42] by simp
qed

text \<open>
  C3, the code at the failing input, a listing that is always empty. The claim has
  both pollers end with the timeout error, not before timeout minus minimum interval.
  On the framework's wait both end with the not-found error after 21 listing calls, at
  210 s (firewall) and 194 s (VLAN), earlier than timeout minus minimum interval; the
  timeout is never reached.
\<close>

theorem empty_listings_give_not_found:
  "findDedicatedFirewallByOrderId_framework (fake_session 0 ([], None)) 42 World0 =
     Some ((Network_Vlan_zero, Some (NotFoundError 21)), \<lparr>clock = 210 * Second, calls = 21\<rparr>)
   \<and> findVlanByOrderId_framework (fake_session 0 ([], None)) 42 World0 =
     Some ((Network_Vlan_zero, Some (NotFoundError 21)), \<lparr>clock = 194 * Second, calls = 21\<rparr>)
   \<and> 210 * Second < Timeout (fw_stateConf (fake_session 0 ([], None)) 42)
                       - MinTimeout (fw_stateConf (fake_session 0 ([], None)) 42)
   \<and> 194 * Second < Timeout (vlan_stateConf (fake_session 0 ([], None)) 42)
                       - MinTimeout (vlan_stateConf (fake_session 0 ([], None)) 42)"
proof -
  have z: "\<forall>req. \<forall>k<21. fake_session 0 ([], None) req k = ([], None)"
    by (simp add: fake_session_def)
  show ?thesis
    using fw_framework_gives_up [OF z, of 42] vlan_framework_gives_up [OF z, of 42]
    by (simp add: fw_conf_simps vlan_conf_simps Second_def)
qed

section \<open>Creating a VLAN: claims\<close>

lemma findVlanByOrderId_error_zero:
  assumes "findVlanByOrderId s backoff orderId w = Some ((vlan, Some e), w')"
  shows "vlan = Network_Vlan_zero"
  using assms
  by (auto simp: findVlanByOrderId_def split: option.splits prod.splits if_splits iface.splits)

text \<open>
  C10. When the create handler gets as far as the poll (no type/router mismatch, the
  order container built, the order placed with an order id) and \<^verbatim>\<open>findVlanByOrderId\<close>
  fails with any error, the handler does not return that error, nor any error: it goes
  on to dereference the nil \<^verbatim>\<open>Id\<close> of the zero VLAN and panics.
\<close>

theorem vlan_create_ignores_poll_error:
  assumes "\<not> ((type d = ''PRIVATE'' \<and> length (router_hostname d) > 0
                  \<and> Contains (router_hostname d) ''fcr'')
              \<or> (type d = ''PUBLIC'' \<and> length (router_hostname d) > 0
                  \<and> Contains (router_hostname d) ''bcr''))"
    and "buildVlanProductOrderContainer api d AdditionalServicesNetworkVlanPackageType = (c, None)"
    and "PlaceOrder api c = (receipt, None)"
    and "OrderId receipt = Some orderId"
    and "findVlanByOrderId (session api) backoff orderId w = Some ((vlan, Some e), w')"
  shows "resourceIBMNetworkVlanCreate d api backoff w = Some (Panic nil_dereference, d, w')"
proof -
  have z: "Id_ptr vlan = None"
    using findVlanByOrderId_error_zero [OF assms(5)] by (simp add: Network_Vlan_zero_def)
  have s: "vlanCreate_setId d api vlan = (Panic nil_dereference, d)"
    by (simp add: vlanCreate_setId_def z)
  show ?thesis
    using assms z s by (simp add: resourceIBMNetworkVlanCreate_def)
qed

theorem vlan_create_ignores_poll_error_witness:
  "findVlanByOrderId (fake_session 0 ([], Some (ApiError ''401 Unauthorized''))) no_backoff 42 World0
     = Some ((Network_Vlan_zero, Some (ApiError ''401 Unauthorized'')),
             \<lparr>clock = 5 * Second, calls = 1\<rparr>)
   \<and> resourceIBMNetworkVlanCreate demo_data
       (demo_api (fake_session 0 ([], Some (ApiError ''401 Unauthorized'')))) no_backoff World0
     = Some (Panic nil_dereference, demo_data, \<lparr>clock = 5 * Second, calls = 1\<rparr>)"
proof -
  let ?s = "fake_session 0 ([], Some (ApiError ''401 Unauthorized''))"
  have z: "\<forall>req. \<forall>k<0. ?s req k = ([], None)" by simp
  have l: "\<forall>req. ?s req 0 = ([], Some (ApiError ''401 Unauthorized''))"
    by (simp add: fake_session_def)
  have p: "findVlanByOrderId ?s no_backoff 42 World0
             = Some ((Network_Vlan_zero, Some (ApiError ''401 Unauthorized'')),
                     \<lparr>clock = 5 * Second, calls = 1\<rparr>)"
    using vlan_find_ends_at [OF z l, of 42 no_backoff]
    by (simp add: tick_time_no_backoff_vlan vlan_conf_simps Second_def)
  have "resourceIBMNetworkVlanCreate demo_data (demo_api ?s) no_backoff World0
          = Some (Panic nil_dereference, demo_data, \<lparr>clock = 5 * Second, calls = 1\<rparr>)"
    by (rule vlan_create_ignores_poll_error
              [where c = demo_container and receipt = "\<lparr>OrderId = Some 42\<rparr>"
                 and orderId = 42 and vlan = Network_Vlan_zero
                 and e = "ApiError ''401 Unauthorized''"])
       (simp_all add: demo_data_def demo_api_def p)
  with p show ?thesis by simp
qed

section \<open>Suppressing equivalent JSON: claims\<close>

lemma collect_lookup:
  assumes "\<forall>m\<in>set ms. hashable (index m ''key'')"
  shows "\<exists>r. collect acc ms = Inr r \<and> fmlookup r = fmlookup acc ++ wire_mapping ms"
  using assms
proof (induction ms arbitrary: acc)
  case Nil
  then show ?case by (simp add: wire_mapping_def)
next
  case (Cons m ms)
  let ?acc' = "fmupd (index m ''key'') (index m ''value'') acc"
  from Cons.prems have h: "hashable (index m ''key'')" and rest: "\<forall>m\<in>set ms. hashable (index m ''key'')"
    by simp_all
  from Cons.IH [OF rest, of ?acc'] obtain r where
    r: "collect ?acc' ms = Inr r" "fmlookup r = fmlookup ?acc' ++ wire_mapping ms"
    by blast
  have "fmlookup ?acc' ++ wire_mapping ms = fmlookup acc ++ wire_mapping (m # ms)"
    by (rule ext) (simp add: wire_mapping_def map_add_def split: option.splits)
  with r h show ?case by simp
qed

lemma collect_wire_mapping:
  assumes "\<forall>m\<in>set ms. hashable (index m ''key'')"
  shows "\<exists>r. collect fmempty ms = Inr r \<and> fmlookup r = wire_mapping ms"
proof -
  have "fmlookup fmempty = (Map.empty :: gov \<rightharpoonup> gov)" by (rule ext) simp
  then show ?thesis using collect_lookup [OF assms, of fmempty] by simp
qed

lemma wire_mapping_permuted:
  assumes "mset newObj = mset oldObj"
    and "distinct (map (\<lambda>m. index m ''key'') oldObj)"
  shows "wire_mapping newObj = wire_mapping oldObj"
proof -
  let ?kv = "\<lambda>m. (index m ''key'', index m ''value'')"
  have m: "mset (map ?kv newObj) = mset (map ?kv oldObj)" using assms(1) by simp
  have k: "map fst (map ?kv xs) = map (\<lambda>m. index m ''key'') xs" for xs by simp
  have "mset (map (\<lambda>m. index m ''key'') newObj) = mset (map (\<lambda>m. index m ''key'') oldObj)"
    using assms(1) by simp
  then have dn: "distinct (map (\<lambda>m. index m ''key'') newObj)"
    using assms(2) mset_eq_imp_distinct_iff by blast
  have "map_of (rev (map ?kv newObj)) = map_of (rev (map ?kv oldObj))"
  proof (rule map_of_inject_set [THEN iffD2])
    show "distinct (map fst (rev (map ?kv newObj)))" using dn by (simp add: rev_map [symmetric] o_def)
    show "distinct (map fst (rev (map ?kv oldObj)))" using assms(2) by (simp add: rev_map [symmetric] o_def)
    show "set (rev (map ?kv newObj)) = set (rev (map ?kv oldObj))"
      using mset_eq_setD [OF m] by simp
  qed
  then show ?thesis by (simp add: wire_mapping_def)
qed

lemma index_kv_object [simp]:
  "index (kv_object k v) ''key'' = k" "index (kv_object k v) ''value'' = v"
  by (simp_all add: index_def kv_object_def)

lemma demo_Unmarshal_simps:
  "demo_Unmarshal json_ab = Inr [kv_object (GString ''a'') (GFloat64 1), kv_object (GString ''b'') (GFloat64 2)]"
  "demo_Unmarshal json_ba = Inr [kv_object (GString ''b'') (GFloat64 2), kv_object (GString ''a'') (GFloat64 1)]"
  "demo_Unmarshal json_a2 = Inr [kv_object (GString ''a'') (GFloat64 2), kv_object (GString ''b'') (GFloat64 2)]"
  "demo_Unmarshal ''{'' = Inl (JsonError ''invalid character'')"
  "json_ab \<noteq> ''''"
  by (simp_all add: demo_Unmarshal_def json_ab_def json_ba_def json_a2_def)

text \<open>
  C7. When both strings decode to arrays of objects whose keys can be map keys (the
  wire format has string keys), \<^verbatim>\<open>suppressEquivalentJSON\<close> returns true exactly when the
  two arrays fold to the same key-to-value mapping, last seen key winning; whatever the
  order of the elements: an array and any reordering of it, the keys being distinct,
  give true; mappings that differ give false.
\<close>

theorem suppress_iff_same_mapping:
  assumes "old \<noteq> ''''"
    and "Unmarshal old = Inr oldObj"
    and "Unmarshal new = Inr newObj"
    and "\<forall>m\<in>set oldObj \<union> set newObj. hashable (index m ''key'')"
  shows "suppressEquivalentJSON Unmarshal k old new
           = Inr (wire_mapping oldObj = wire_mapping newObj)
       \<and> (mset newObj = mset oldObj \<and> distinct (map (\<lambda>m. index m ''key'') oldObj)
            \<longrightarrow> suppressEquivalentJSON Unmarshal k old new = Inr True)"
proof -
  from assms(4) have ho: "\<forall>m\<in>set oldObj. hashable (index m ''key'')"
    and hn: "\<forall>m\<in>set newObj. hashable (index m ''key'')" by auto
  from collect_wire_mapping [OF ho] obtain oldm where
    o: "collect fmempty oldObj = Inr oldm" "fmlookup oldm = wire_mapping oldObj" by blast
  from collect_wire_mapping [OF hn] obtain newm where
    n: "collect fmempty newObj = Inr newm" "fmlookup newm = wire_mapping newObj" by blast
  have eq: "(oldm = newm) = (wire_mapping oldObj = wire_mapping newObj)"
    using o(2) n(2) fmlookup_inject [of oldm newm] by simp
  have r: "suppressEquivalentJSON Unmarshal k old new
             = Inr (wire_mapping oldObj = wire_mapping newObj)"
    using assms(1-3) o(1) n(1) eq by (simp add: suppressEquivalentJSON_def)
  show ?thesis
    using r wire_mapping_permuted [of newObj oldObj] by simp
qed

theorem suppress_iff_same_mapping_witness:
  "suppressEquivalentJSON demo_Unmarshal ''annotations'' json_ab json_ba = Inr True
   \<and> suppressEquivalentJSON demo_Unmarshal ''annotations'' json_ab json_a2 = Inr False"
proof -
  let ?ab = "[kv_object (GString ''a'') (GFloat64 1), kv_object (GString ''b'') (GFloat64 2)]"
  let ?ba = "[kv_object (GString ''b'') (GFloat64 2), kv_object (GString ''a'') (GFloat64 1)]"
  let ?a2 = "[kv_object (GString ''a'') (GFloat64 2), kv_object (GString ''b'') (GFloat64 2)]"
  have 1: "suppressEquivalentJSON demo_Unmarshal ''annotations'' json_ab json_ba = Inr True"
    using suppress_iff_same_mapping
            [of json_ab demo_Unmarshal "?ab" json_ba "?ba" "''annotations''", THEN conjunct2]
    by (simp add: demo_Unmarshal_simps)
  have ne: "wire_mapping ?ab \<noteq> wire_mapping ?a2"
  proof
    assume "wire_mapping ?ab = wire_mapping ?a2"
    then have "wire_mapping ?ab (GString ''a'') = wire_mapping ?a2 (GString ''a'')" by simp
    then show False by (simp add: wire_mapping_def)
  qed
  have 2: "suppressEquivalentJSON demo_Unmarshal ''annotations'' json_ab json_a2 = Inr False"
    using suppress_iff_same_mapping
            [of json_ab demo_Unmarshal "?ab" json_a2 "?a2" "''annotations''", THEN conjunct1] ne
    by (simp add: demo_Unmarshal_simps)
  from 1 2 show ?thesis by simp
qed

text \<open>
  C8. The check fails open: if the old string is empty or the decoder rejects either
  string, \<^verbatim>\<open>suppressEquivalentJSON\<close> returns false; it returns, and does not panic.
\<close>

theorem suppress_fails_open:
  assumes "old = '''' \<or> (\<exists>e. Unmarshal old = Inl e) \<or> (\<exists>e. Unmarshal new = Inl e)"
  shows "suppressEquivalentJSON Unmarshal k old new = Inr False"
  using assms
  by (auto simp: suppressEquivalentJSON_def split: sum.splits)

theorem suppress_fails_open_witness:
  "suppressEquivalentJSON demo_Unmarshal ''annotations'' '''' json_ab = Inr False
   \<and> suppressEquivalentJSON demo_Unmarshal ''annotations'' ''{'' json_ab = Inr False
   \<and> suppressEquivalentJSON demo_Unmarshal ''annotations'' json_ab ''{'' = Inr False"
  using suppress_fails_open [of "''''" demo_Unmarshal json_ab "''annotations''"]
    suppress_fails_open [of "''{''" demo_Unmarshal json_ab "''annotations''"]
    suppress_fails_open [of json_ab demo_Unmarshal "''{''" "''annotations''"]
  by (simp add: demo_Unmarshal_simps)

section \<open>Qualified names: claims\<close>

lemma split_on_no_sep: "seg \<in> set (split_on sep s) \<Longrightarrow> sep \<notin> set seg"
proof (induction s arbitrary: seg)
  case Nil
  then show ?case by simp
next
  case (Cons c cs)
  then show ?case
    by (cases "split_on sep cs") (auto split: if_splits)
qed

lemma split_on_plain: "sep \<notin> set s \<Longrightarrow> split_on sep s = [s]"
  by (induction s) auto

lemma split_on_append:
  "sep \<notin> set a \<Longrightarrow> split_on sep (a @ sep # rest) = a # split_on sep rest"
  by (induction a) auto

lemma strip_leading_no_sep:
  "seg \<in> set (strip_leading (split_on sep s)) \<Longrightarrow> sep \<notin> set seg"
proof -
  assume a: "seg \<in> set (strip_leading (split_on sep s))"
  have "set (strip_leading xs) \<subseteq> set xs" for xs :: "string list"
    by (auto simp: strip_leading_def split: list.splits)
  with a have "seg \<in> set (split_on sep s)" by blast
  then show ?thesis by (rule split_on_no_sep)
qed

lemma parse_one:
  assumes "e \<noteq> []" "CHR ''/'' \<notin> set e"
  shows "parse e = Inr \<lparr>namespace = '''', packageName = '''', entityName = e\<rparr>"
  using assms
  by (cases e) (auto simp: parse_def split_on_plain strip_leading_def)

lemma parse_two:
  assumes "n \<noteq> []" "e \<noteq> []" "CHR ''/'' \<notin> set n" "CHR ''/'' \<notin> set e"
  shows "parse (''/'' @ n @ ''/'' @ e) = Inr \<lparr>namespace = n, packageName = '''', entityName = e\<rparr>"
proof -
  have "split_on CHR ''/'' (''/'' @ n @ ''/'' @ e) = [[], n, e]"
    using assms by (simp add: split_on_append split_on_plain)
  then show ?thesis
    using assms by (simp add: parse_def strip_leading_def)
qed

lemma parse_three:
  assumes "n \<noteq> []" "p \<noteq> []" "e \<noteq> []"
    "CHR ''/'' \<notin> set n" "CHR ''/'' \<notin> set p" "CHR ''/'' \<notin> set e"
  shows "parse (''/'' @ n @ ''/'' @ p @ ''/'' @ e)
           = Inr \<lparr>namespace = n, packageName = p, entityName = e\<rparr>"
proof -
  have "split_on CHR ''/'' (p @ ''/'' @ e) = [p, e]"
    using assms by (simp add: split_on_append split_on_plain)
  then have "split_on CHR ''/'' (''/'' @ n @ ''/'' @ p @ ''/'' @ e) = [[], n, p, e]"
    using assms by (simp add: split_on_append)
  then show ?thesis
    using assms by (simp add: parse_def strip_leading_def)
qed

lemma parse_examples:
  "parse '''' = Inl (MalformedIdentifier '''')"
  "parse ''a/'' = Inl (MalformedIdentifier ''a/'')"
  "parse ''ns/pkg/action'' = Inr \<lparr>namespace = ''ns'', packageName = ''pkg'', entityName = ''action''\<rparr>"
  "parse ''action'' = Inr \<lparr>namespace = '''', packageName = '''', entityName = ''action''\<rparr>"
  by (simp_all add: parse_def strip_leading_def)

text \<open>
  C5. For every raw identifier that \<open>parse\<close> accepts, formatting the parsed name and
  parsing the result again gives the same qualified name.
\<close>

theorem parse_format_parse:
  assumes "parse raw = Inr qn"
  shows "parse (format qn) = Inr qn"
proof -
  let ?segs = "strip_leading (split_on CHR ''/'' raw)"
  have nosep: "\<forall>seg \<in> set ?segs. CHR ''/'' \<notin> set seg"
    using strip_leading_no_sep by blast
  have nonempty: "[] \<notin> set ?segs"
    using assms by (auto simp: parse_def Let_def split: if_splits)
  from assms nonempty consider
      e where "?segs = [e]" "qn = \<lparr>namespace = '''', packageName = '''', entityName = e\<rparr>"
    | n e where "?segs = [n, e]" "qn = \<lparr>namespace = n, packageName = '''', entityName = e\<rparr>"
    | n p e where "?segs = [n, p, e]" "qn = \<lparr>namespace = n, packageName = p, entityName = e\<rparr>"
    by (auto simp: parse_def Let_def split: if_splits list.splits)
  then show ?thesis
  proof cases
    case 1
    with nosep nonempty have "e \<noteq> []" "CHR ''/'' \<notin> set e" by auto
    then show ?thesis using 1(2) parse_one by (simp add: format_def)
  next
    case 2
    with nosep nonempty have "n \<noteq> []" "e \<noteq> []" "CHR ''/'' \<notin> set n" "CHR ''/'' \<notin> set e"
      by auto
    then show ?thesis using 2(2) parse_two [of n e] by (simp add: format_def)
  next
    case 3
    with nosep nonempty have "n \<noteq> []" "p \<noteq> []" "e \<noteq> []"
      "CHR ''/'' \<notin> set n" "CHR ''/'' \<notin> set p" "CHR ''/'' \<notin> set e"
      by auto
    then show ?thesis using 3(2) parse_three [of n p e] by (simp add: format_def)
  qed
qed

theorem parse_format_parse_witness:
  "parse ''ns/pkg/action''
     = Inr \<lparr>namespace = ''ns'', packageName = ''pkg'', entityName = ''action''\<rparr>
   \<and> format \<lparr>namespace = ''ns'', packageName = ''pkg'', entityName = ''action''\<rparr>
     = ''/ns/pkg/action''
   \<and> parse ''/ns/pkg/action''
     = Inr \<lparr>namespace = ''ns'', packageName = ''pkg'', entityName = ''action''\<rparr>"
  using parse_format_parse
    [of "''ns/pkg/action''"
        "\<lparr>namespace = ''ns'', packageName = ''pkg'', entityName = ''action''\<rparr>"]
  by (simp add: parse_examples format_def)

end
